theory Spec2Isabelle
  imports Main "HOL-Library.Word" "HOL-Library.Monad_Syntax"
begin

section \<open>The example program \<open>examples/c-project/main.c\<close>\<close>

text \<open>
  The program is one function, \<open>main\<close>: five calls of \<open>printf\<close>, one \<open>for\<close> loop over
  the argument vector, and two calls that the preprocessor keeps or drops
  (\<open>#ifdef DEBUG\<close>, \<open>#ifdef NDEBUG\<close>).

  Standard output is a stream of bytes: the model threads it as a \<open>string\<close> (HOL's
  \<open>char\<close> is a byte) through the calls, each call appending what it writes. A C \<open>int\<close>
  is a 32-bit two's complement value, a \<open>32 word\<close> read with \<open>sint\<close> and compared with
  \<open><s\<close>. A C string is modelled by the characters before its terminating NUL.
  Undefined behaviour (an element read outside the argument vector, a conversion without
  a matching argument) is the value \<open>None\<close>. A failing write to standard output is not
  modelled: the program ignores the value \<open>printf\<close> returns.
\<close>

subsection \<open>Data\<close>

type_synonym c_int = "32 word"

text \<open>The two preprocessor symbols the source tests; \<open>True\<close> means defined.\<close>

record build =
  DEBUG :: bool
  NDEBUG :: bool

text \<open>What the process leaves behind: the bytes written and the value \<open>main\<close> returns.\<close>

record outcome =
  stdout :: string
  status :: c_int

text \<open>The variadic arguments of \<open>printf\<close> this program passes.\<close>

datatype arg = Arg_int c_int | Arg_str string

subsection \<open>\<open>printf\<close>\<close>

definition nl :: char where
  "nl = CHR 0x0A"

definition digit :: "nat \<Rightarrow> char" where
  "digit d = ''0123456789'' ! d"

text \<open>Decimal digits of a natural number, most significant first, no leading zero.\<close>

fun dec :: "nat \<Rightarrow> string" where
  "dec n = (if n < 10 then [digit n] else dec (n div 10) @ [digit (n mod 10)])"

declare dec.simps [simp del]

text \<open>The conversion \<open>%d\<close>: a signed decimal.\<close>

definition fmt_d :: "c_int \<Rightarrow> string" where
  "fmt_d n = (if sint n < 0 then CHR ''-'' # dec (nat (- sint n)) else dec (nat (sint n)))"

text \<open>
  The text a format string produces. Only what the program uses is interpreted: ordinary
  characters, \<open>%d\<close> with an \<open>int\<close> and \<open>%s\<close> with a string. Surplus arguments are
  ignored, as in C.
\<close>

fun format :: "string \<Rightarrow> arg list \<Rightarrow> string option" where
  "format [] args = Some []"
| "format [c] args = (if c = CHR ''%'' then None else Some [c])"
| "format (c # d # fmt) args =
     (if c = CHR ''%'' then
        (if d = CHR ''d'' then
           (case args of
              Arg_int n # args' \<Rightarrow> map_option (\<lambda>t. fmt_d n @ t) (format fmt args')
            | _ \<Rightarrow> None)
         else if d = CHR ''s'' then
           (case args of
              Arg_str s # args' \<Rightarrow> map_option (\<lambda>t. s @ t) (format fmt args')
            | _ \<Rightarrow> None)
         else None)
      else map_option (\<lambda>t. c # t) (format (d # fmt) args))"

text \<open>\<open>printf\<close> appends the formatted text to standard output.\<close>

definition printf :: "string \<Rightarrow> arg list \<Rightarrow> string \<Rightarrow> string option" where
  "printf fmt args out = map_option (\<lambda>t. out @ t) (format fmt args)"

subsection \<open>\<open>main\<close>\<close>

text \<open>
  \<open>argv[i]\<close>: the vector holds the strings \<open>argv[0]\<close> .. \<open>argv[argc - 1]\<close>; an index
  outside it gives no string to print.
\<close>

definition argv_at :: "string list \<Rightarrow> c_int \<Rightarrow> string option" where
  "argv_at argv i =
     (if 0 \<le> sint i \<and> nat (sint i) < length argv then Some (argv ! nat (sint i)) else None)"

text \<open>
  \<^verbatim>\<open>for (int i = 0; i < argc; i++) { printf("  [%d]: %s\n", i, argv[i]); }\<close>
  from the state in which \<open>i\<close> has the given value.
\<close>

function arg_loop :: "c_int \<Rightarrow> string list \<Rightarrow> c_int \<Rightarrow> string \<Rightarrow> string option" where
  "arg_loop argc argv i out =
     (if i <s argc then
        (case argv_at argv i of
           None \<Rightarrow> None
         | Some a \<Rightarrow>
             (case printf (''  [%d]: %s'' @ [nl]) [Arg_int i, Arg_str a] out of
                None \<Rightarrow> None
              | Some out' \<Rightarrow> arg_loop argc argv (i + 1) out'))
      else Some out)"
  by pat_completeness auto

termination arg_loop
proof (relation "measure (\<lambda>(argc, argv, i, out). nat (sint argc - sint i))")
  show "wf (measure (\<lambda>(argc, argv, i, out). nat (sint argc - sint i)))"
    by simp
next
  fix argc i :: c_int and argv :: "string list" and out a out' :: string
  assume "i <s argc"
  then have lt: "sint i < sint argc"
    by (simp add: word_sless_alt)
  have "sint argc < 2 ^ 31"
    using sint_lt [of argc] by simp
  moreover have "- (2 ^ 31) \<le> sint i"
    using sint_ge [of i] by simp
  ultimately have "signed_take_bit 31 (sint i + 1) = sint i + 1"
    using lt by (intro signed_take_bit_int_eq_self) simp_all
  then have "sint (i + 1) = sint i + 1"
    by (simp add: sint_word_ariths)
  with lt show "((argc, argv, i + 1, out'), (argc, argv, i, out))
      \<in> measure (\<lambda>(argc, argv, i, out). nat (sint argc - sint i))"
    by simp
qed

declare arg_loop.simps [simp del]

text \<open>
  \<open>main\<close>, for a build with the given symbols defined. It returns \<open>0\<close>.
\<close>

definition main :: "build \<Rightarrow> c_int \<Rightarrow> string list \<Rightarrow> outcome option" where
  "main b argc argv = do {
     out \<leftarrow> printf (''Hello from C compiled with zmake! '' @
                    [CHR 0xF0, CHR 0x9F, CHR 0x94, CHR 0xA5] @ [nl]) [] [];
     out \<leftarrow> printf (''Arguments: %d'' @ [nl]) [Arg_int argc] out;
     out \<leftarrow> arg_loop argc argv 0 out;
     out \<leftarrow> (if DEBUG b then printf (''Debug mode enabled'' @ [nl]) [] out else Some out);
     out \<leftarrow> (if NDEBUG b then printf (''Release mode (optimized)'' @ [nl]) [] out
             else Some out);
     Some \<lparr>stdout = out, status = 0\<rparr>
   }"

subsection \<open>The environment at program start\<close>

text \<open>
  An invocation is the list of argument strings, the program's name first. The hosted
  environment calls \<open>main\<close> with \<open>argc\<close> the number of these strings, so a list passes
  through an \<open>int\<close> only when it has fewer than \<open>2 ^ 31\<close> elements.
\<close>

definition invocation :: "c_int \<Rightarrow> string list \<Rightarrow> bool" where
  "invocation argc argv = (sint argc = int (length argv))"

text \<open>No element of the invocation contains a line feed.\<close>

definition no_line_feed :: "string list \<Rightarrow> bool" where
  "no_line_feed argv = (\<forall>a \<in> set argv. nl \<notin> set a)"

subsection \<open>The lines the specification names\<close>

text \<open>A line of output is its text followed by a line feed.\<close>

definition line :: "string \<Rightarrow> string" where
  "line t = t @ [nl]"

definition greeting :: string where
  "greeting = ''Hello from C compiled with zmake! '' @ [CHR 0xF0, CHR 0x9F, CHR 0x94, CHR 0xA5]"

definition count_text :: "nat \<Rightarrow> string" where
  "count_text n = ''Arguments: '' @ dec n"

definition arg_text :: "nat \<Rightarrow> string \<Rightarrow> string" where
  "arg_text i a = ''  ['' @ dec i @ '']: '' @ a"

definition arg_texts :: "string list \<Rightarrow> string list" where
  "arg_texts argv = map (\<lambda>i. arg_text i (argv ! i)) [0..<length argv]"

definition debug_text :: string where
  "debug_text = ''Debug mode enabled''"

definition release_text :: string where
  "release_text = ''Release mode (optimized)''"

definition mode_texts :: "build \<Rightarrow> string list" where
  "mode_texts b =
     (if DEBUG b then [debug_text] else []) @ (if NDEBUG b then [release_text] else [])"

text \<open>
  Reading the stream back as lines: a line ends at each line feed, and text after the
  last line feed is a line of its own.
\<close>

fun split_lines :: "string \<Rightarrow> string \<Rightarrow> string list" where
  "split_lines cur [] = (if cur = [] then [] else [cur])"
| "split_lines cur (c # cs) =
     (if c = nl then cur # split_lines [] cs else split_lines (cur @ [c]) cs)"

definition lines_of :: "string \<Rightarrow> string list" where
  "lines_of s = split_lines [] s"

text \<open>The lines a run wrote; a run with undefined behaviour has none to speak of.\<close>

definition out_lines :: "outcome option \<Rightarrow> string list" where
  "out_lines r = (case r of None \<Rightarrow> [] | Some x \<Rightarrow> lines_of (stdout x))"

text \<open>Reading a decimal numeral back, to say which number a line reports.\<close>

definition digit_val :: "char \<Rightarrow> nat" where
  "digit_val c = of_char c - 48"

definition read_dec :: "string \<Rightarrow> nat" where
  "read_dec s = foldl (\<lambda>n c. 10 * n + digit_val c) 0 s"

subsection \<open>The output after the argument listing\<close>

text \<open>
  The bytes up to the end of the argument listing: the greeting line, the count line and
  what the loop writes. They do not depend on the build.
\<close>

definition listing :: "string list \<Rightarrow> string" where
  "listing argv =
     line greeting @ line (count_text (length argv)) @ concat (map line (arg_texts argv))"

text \<open>The lines a run wrote after the argument listing.\<close>

definition after_listing :: "string list \<Rightarrow> outcome option \<Rightarrow> string list" where
  "after_listing argv r =
     (case r of None \<Rightarrow> [] | Some x \<Rightarrow> lines_of (drop (length (listing argv)) (stdout x)))"

subsection \<open>The program as a transition system\<close>

text \<open>
  The same program, statement by statement: a configuration is the statement about to
  run together with the variables alive there (the bytes written so far, and \<open>i\<close> inside
  the loop), and a step runs that statement. Nothing here says that a configuration has
  one successor only; that is a property to prove.
\<close>

datatype config =
    At_greeting string
  | At_count string
  | At_for string
  | At_test c_int string
  | At_body c_int string
  | At_debug string
  | At_release string
  | At_return string
  | Exited outcome

inductive step :: "build \<Rightarrow> c_int \<Rightarrow> string list \<Rightarrow> config \<Rightarrow> config \<Rightarrow> bool"
  for b :: build and argc :: c_int and argv :: "string list" where
  greeting:
    "printf (''Hello from C compiled with zmake! '' @
        [CHR 0xF0, CHR 0x9F, CHR 0x94, CHR 0xA5] @ [nl]) [] out = Some out' \<Longrightarrow>
     step b argc argv (At_greeting out) (At_count out')"
| count:
    "printf (''Arguments: %d'' @ [nl]) [Arg_int argc] out = Some out' \<Longrightarrow>
     step b argc argv (At_count out) (At_for out')"
| for_init:
    "step b argc argv (At_for out) (At_test 0 out)"
| test_true:
    "i <s argc \<Longrightarrow> step b argc argv (At_test i out) (At_body i out)"
| test_false:
    "\<not> i <s argc \<Longrightarrow> step b argc argv (At_test i out) (At_debug out)"
| body:
    "argv_at argv i = Some a \<Longrightarrow>
     printf (''  [%d]: %s'' @ [nl]) [Arg_int i, Arg_str a] out = Some out' \<Longrightarrow>
     step b argc argv (At_body i out) (At_test (i + 1) out')"
| debug_defined:
    "DEBUG b \<Longrightarrow> printf (''Debug mode enabled'' @ [nl]) [] out = Some out' \<Longrightarrow>
     step b argc argv (At_debug out) (At_release out')"
| debug_undefined:
    "\<not> DEBUG b \<Longrightarrow> step b argc argv (At_debug out) (At_release out)"
| release_defined:
    "NDEBUG b \<Longrightarrow> printf (''Release mode (optimized)'' @ [nl]) [] out = Some out' \<Longrightarrow>
     step b argc argv (At_release out) (At_return out')"
| release_undefined:
    "\<not> NDEBUG b \<Longrightarrow> step b argc argv (At_release out) (At_return out)"
| return:
    "r = \<lparr>stdout = out, status = 0\<rparr> \<Longrightarrow> step b argc argv (At_return out) (Exited r)"

code_pred step .

text \<open>A run starts with nothing written and ends when \<open>main\<close> has returned.\<close>

definition runs :: "build \<Rightarrow> c_int \<Rightarrow> string list \<Rightarrow> outcome \<Rightarrow> bool" where
  "runs b argc argv r = (step b argc argv)\<^sup>*\<^sup>* (At_greeting []) (Exited r)"

section \<open>What each call writes\<close>

lemma printf_greeting:
  "printf (''Hello from C compiled with zmake! '' @ [CHR 0xF0, CHR 0x9F, CHR 0x94, CHR 0xA5] @ [nl])
     args out = Some (out @ line greeting)"
  by (simp add: printf_def nl_def line_def greeting_def)

lemma printf_count:
  "0 \<le> sint n \<Longrightarrow>
   printf (''Arguments: %d'' @ [nl]) [Arg_int n] out = Some (out @ line (count_text (nat (sint n))))"
  by (simp add: printf_def nl_def line_def count_text_def fmt_d_def)

lemma printf_arg:
  "0 \<le> sint i \<Longrightarrow>
   printf (''  [%d]: %s'' @ [nl]) [Arg_int i, Arg_str a] out
     = Some (out @ line (arg_text (nat (sint i)) a))"
  by (simp add: printf_def nl_def line_def arg_text_def fmt_d_def)

lemma printf_debug:
  "printf (''Debug mode enabled'' @ [nl]) args out = Some (out @ line debug_text)"
  by (simp add: printf_def nl_def line_def debug_text_def)

lemma printf_release:
  "printf (''Release mode (optimized)'' @ [nl]) args out = Some (out @ line release_text)"
  by (simp add: printf_def nl_def line_def release_text_def)

text \<open>Below \<open>argc\<close> the increment \<open>i++\<close> does not overflow.\<close>

lemma sint_succ:
  fixes i argc :: c_int
  assumes "sint i < sint argc"
  shows "sint (i + 1) = sint i + 1"
proof -
  have "sint argc < 2 ^ 31"
    using sint_lt [of argc] by simp
  moreover have "- (2 ^ 31) \<le> sint i"
    using sint_ge [of i] by simp
  ultimately have "signed_take_bit 31 (sint i + 1) = sint i + 1"
    using assms by (intro signed_take_bit_int_eq_self) simp_all
  then show ?thesis
    by (simp add: sint_word_ariths)
qed

text \<open>The loop, entered with \<open>i = k\<close>, writes the lines of the elements from \<open>k\<close> on.\<close>

lemma arg_loop_from:
  assumes "sint argc = int (length argv)"
  shows "length argv - k = m \<Longrightarrow> k \<le> length argv \<Longrightarrow> sint i = int k \<Longrightarrow>
    arg_loop argc argv i out
      = Some (out @ concat (map (\<lambda>j. line (arg_text j (argv ! j))) [k..<length argv]))"
proof (induction m arbitrary: k i out)
  case 0
  then have "k = length argv" by simp
  with 0 assms have "\<not> i <s argc" by (simp add: word_sless_alt)
  with \<open>k = length argv\<close> show ?case by (subst arg_loop.simps) simp
next
  case (Suc m)
  then have lt: "k < length argv" by simp
  with Suc.prems assms have less: "i <s argc" and slt: "sint i < sint argc"
    by (simp_all add: word_sless_alt)
  have at: "argv_at argv i = Some (argv ! k)"
    using lt Suc.prems by (simp add: argv_at_def)
  have pr: "printf (''  [%d]: %s'' @ [nl]) [Arg_int i, Arg_str (argv ! k)] out
      = Some (out @ line (arg_text k (argv ! k)))"
    using printf_arg [of i "argv ! k" out] Suc.prems by simp
  have nxt: "sint (i + 1) = int (Suc k)"
    using sint_succ [OF slt] Suc.prems by simp
  have "arg_loop argc argv (i + 1) (out @ line (arg_text k (argv ! k)))
      = Some ((out @ line (arg_text k (argv ! k)))
          @ concat (map (\<lambda>j. line (arg_text j (argv ! j))) [Suc k..<length argv]))"
    using Suc.prems lt by (intro Suc.IH nxt) simp_all
  then show ?case
    using less at lt by (subst arg_loop.simps) (simp add: pr upt_conv_Cons del: append_Cons append_Nil)
qed

text \<open>The whole run of \<open>main\<close> on an invocation.\<close>

lemma main_transcript:
  assumes "invocation argc argv"
  shows "main b argc argv = Some \<lparr>stdout =
      line greeting @ line (count_text (length argv))
        @ concat (map line (arg_texts argv))
        @ (if DEBUG b then line debug_text else [])
        @ (if NDEBUG b then line release_text else []), status = 0\<rparr>"
proof -
  have n: "sint argc = int (length argv)"
    using assms by (simp add: invocation_def)
  have loop: "arg_loop argc argv 0 out = Some (out @ concat (map line (arg_texts argv)))" for out
    using arg_loop_from [OF n, of 0 "length argv" 0 out]
    by (simp add: arg_texts_def comp_def)
  have cnt: "printf (''Arguments: %d'' @ [nl]) [Arg_int argc] out
      = Some (out @ line (count_text (length argv)))" for out
    using printf_count [of argc out] n by simp
  show ?thesis
    unfolding main_def printf_greeting cnt loop printf_debug printf_release
    by simp
qed

section \<open>Decimal numerals\<close>

text \<open>A numeral consists of digits, and reads back as the number it was made from.\<close>

lemma digit_in: "d < 10 \<Longrightarrow> digit d \<in> set ''0123456789''"
  unfolding digit_def by (rule nth_mem) simp

lemma dec_digits: "set (dec n) \<subseteq> set ''0123456789''"
proof (induction n rule: dec.induct)
  case (1 n)
  show ?case
  proof (cases "n < 10")
    case True
    then show ?thesis
      using digit_in [of n] by (subst dec.simps) simp
  next
    case False
    have "n mod 10 < 10" by simp
    then have "digit (n mod 10) \<in> set ''0123456789''"
      by (rule digit_in)
    with False 1 show ?thesis
      by (subst dec.simps) simp
  qed
qed

lemma nl_dec: "nl \<notin> set (dec n)"
  using dec_digits [of n] by (auto simp: nl_def)

lemma digit_val_digit: "d < 10 \<Longrightarrow> digit_val (digit d) = d"
proof -
  assume "d < 10"
  then have "d \<in> {0, 1, 2, 3, 4, 5, 6, 7, 8, 9}" by auto
  then show ?thesis
    by (auto simp: digit_val_def digit_def)
qed

lemma read_dec_dec: "read_dec (dec n) = n"
proof (induction n rule: dec.induct)
  case (1 n)
  show ?case
  proof (cases "n < 10")
    case True
    then show ?thesis
      by (subst dec.simps) (simp add: read_dec_def digit_val_digit)
  next
    case False
    with 1 have "read_dec (dec (n div 10)) = n div 10" by simp
    with False show ?thesis
      by (subst dec.simps) (simp add: read_dec_def digit_val_digit)
  qed
qed

section \<open>Reading the output as lines\<close>

text \<open>A text without a line feed, written as a line, is read back as that line.\<close>

lemma split_lines_line:
  "nl \<notin> set t \<Longrightarrow> split_lines cur (t @ nl # rest) = (cur @ t) # split_lines [] rest"
  by (induction t arbitrary: cur) auto

lemma lines_of_line: "nl \<notin> set t \<Longrightarrow> lines_of (line t @ rest) = t # lines_of rest"
  using split_lines_line [of t "[]" rest] by (simp add: lines_of_def line_def)

lemma lines_of_lines:
  "\<forall>t \<in> set ts. nl \<notin> set t \<Longrightarrow> lines_of (concat (map line ts) @ rest) = ts @ lines_of rest"
  by (induction ts) (simp_all add: lines_of_line)

lemma lines_of_Nil: "lines_of [] = []"
  by (simp add: lines_of_def)

text \<open>
  Whatever a line's text contains, the reading of what follows it starts afresh.
\<close>

lemma split_lines_append:
  "split_lines cur (xs @ nl # ys) = split_lines cur (xs @ [nl]) @ split_lines [] ys"
  by (induction xs arbitrary: cur) auto

lemma lines_of_line_append: "lines_of (line t @ ys) = lines_of (line t) @ lines_of ys"
  using split_lines_append [of "[]" t ys] by (simp add: lines_of_def line_def)

lemma lines_of_lines_append:
  "lines_of (concat (map line ts) @ ys) = lines_of (concat (map line ts)) @ lines_of ys"
proof (induction ts)
  case Nil
  show ?case by (simp add: lines_of_Nil)
next
  case (Cons t ts)
  have "lines_of (concat (map line (t # ts)) @ ys)
      = lines_of (line t) @ lines_of (concat (map line ts) @ ys)"
    using lines_of_line_append [of t "concat (map line ts) @ ys"] by simp
  also have "\<dots> = lines_of (line t) @ lines_of (concat (map line ts)) @ lines_of ys"
    by (simp add: Cons.IH)
  also have "\<dots> = lines_of (concat (map line (t # ts))) @ lines_of ys"
    using lines_of_line_append [of t "concat (map line ts)"] by simp
  finally show ?case .
qed

text \<open>The texts the program writes itself contain no line feed.\<close>

lemma nl_greeting: "nl \<notin> set greeting"
  by (simp add: greeting_def nl_def)

lemma nl_count_text: "nl \<notin> set (count_text n)"
  using nl_dec [of n] by (simp add: count_text_def nl_def)

lemma nl_arg_text: "nl \<notin> set a \<Longrightarrow> nl \<notin> set (arg_text i a)"
  using nl_dec [of i] by (simp add: arg_text_def nl_def)

lemma nl_debug_text: "nl \<notin> set debug_text"
  by (simp add: debug_text_def nl_def)

lemma nl_release_text: "nl \<notin> set release_text"
  by (simp add: release_text_def nl_def)

lemma nl_arg_texts: "no_line_feed argv \<Longrightarrow> \<forall>t \<in> set (arg_texts argv). nl \<notin> set t"
  by (auto simp: no_line_feed_def arg_texts_def nl_arg_text)

lemma lines_of_modes:
  "lines_of ((if DEBUG b then line debug_text else []) @ (if NDEBUG b then line release_text else []))
     = mode_texts b"
  using lines_of_line [OF nl_debug_text, of "[]"] lines_of_line [OF nl_release_text, of "[]"]
    lines_of_line [OF nl_debug_text, of "line release_text"]
  by (simp add: mode_texts_def lines_of_Nil)

text \<open>The lines of a run: for any invocation, and for one without line feeds.\<close>

lemma out_lines_head:
  assumes "invocation argc argv"
  shows "out_lines (main b argc argv) =
    greeting # count_text (length argv) #
      lines_of (concat (map line (arg_texts argv))
        @ (if DEBUG b then line debug_text else [])
        @ (if NDEBUG b then line release_text else []))"
  by (simp add: out_lines_def main_transcript [OF assms] lines_of_line nl_greeting nl_count_text)

lemma out_lines_main:
  assumes "invocation argc argv" and "no_line_feed argv"
  shows "out_lines (main b argc argv) =
    greeting # count_text (length argv) # arg_texts argv @ mode_texts b"
  using lines_of_lines [OF nl_arg_texts [OF assms(2)]] lines_of_modes [of b]
  by (simp add: out_lines_head [OF assms(1)])

lemma out_lines_general:
  assumes "invocation argc argv"
  shows "out_lines (main b argc argv) =
    greeting # count_text (length argv) #
      lines_of (concat (map line (arg_texts argv))) @ mode_texts b"
  using lines_of_lines_append [of "arg_texts argv"
      "(if DEBUG b then line debug_text else []) @ (if NDEBUG b then line release_text else [])"]
  by (simp add: out_lines_head [OF assms] lines_of_modes)

text \<open>Small instances, for evaluating concrete runs.\<close>

lemma arg_texts_1: "arg_texts [a] = [''  [0]: '' @ a]"
  by (simp add: arg_texts_def arg_text_def dec.simps digit_def)

lemma arg_texts_2: "arg_texts [a, b] = [''  [0]: '' @ a, ''  [1]: '' @ b]"
  by (simp add: arg_texts_def arg_text_def dec.simps digit_def)

lemma arg_texts_3: "arg_texts [a, b, c] = [''  [0]: '' @ a, ''  [1]: '' @ b, ''  [2]: '' @ c]"
  by (simp add: arg_texts_def arg_text_def dec.simps digit_def numeral_2_eq_2)

lemma count_text_0: "count_text 0 = ''Arguments: 0''"
  by (simp add: count_text_def dec.simps digit_def)
lemma count_text_1: "count_text (Suc 0) = ''Arguments: 1''"
  by (simp add: count_text_def dec.simps digit_def)
lemma count_text_2: "count_text (Suc (Suc 0)) = ''Arguments: 2''"
  by (simp add: count_text_def dec.simps digit_def)
lemma count_text_3: "count_text (Suc (Suc (Suc 0))) = ''Arguments: 3''"
  by (simp add: count_text_def dec.simps digit_def)

lemma invocation_1: "invocation 1 [a]"
  by (simp add: invocation_def)
lemma invocation_2: "invocation 2 [a, b]"
  by (simp add: invocation_def)
lemma invocation_3: "invocation 3 [a, b, c]"
  by (simp add: invocation_def)

section \<open>The lines after the argument listing\<close>

text \<open>Every run on an invocation writes the listing first, and then the mode lines only.\<close>

lemma main_after_listing:
  assumes "invocation argc argv"
  shows "main b argc argv = Some \<lparr>stdout = listing argv
      @ (if DEBUG b then line debug_text else [])
      @ (if NDEBUG b then line release_text else []), status = 0\<rparr>"
  by (simp add: main_transcript [OF assms] listing_def)

lemma after_listing_main:
  assumes "invocation argc argv"
  shows "after_listing argv (main b argc argv) = mode_texts b"
  by (simp add: after_listing_def main_after_listing [OF assms] lines_of_modes)

lemma mode_texts_distinct: "debug_text \<noteq> release_text"
  by (simp add: debug_text_def release_text_def)

section \<open>Runs of the transition system\<close>

text \<open>
  A configuration has at most one successor, and \<open>Exited\<close> has none: so a run can end in
  one outcome only.
\<close>

lemma step_deterministic:
  "step b argc argv c c' \<Longrightarrow> step b argc argv c c'' \<Longrightarrow> c'' = c'"
  by (induction rule: step.induct) (auto elim: step.cases)

lemma Exited_final: "\<not> step b argc argv (Exited r) c"
  by (auto elim: step.cases)

lemma steps_from_Exited:
  "(step b argc argv)\<^sup>*\<^sup>* (Exited r) c \<Longrightarrow> c = Exited r"
  by (erule converse_rtranclpE) (auto simp: Exited_final)

lemma steps_to_Exited_unique:
  "(step b argc argv)\<^sup>*\<^sup>* c (Exited r) \<Longrightarrow> (step b argc argv)\<^sup>*\<^sup>* c (Exited r') \<Longrightarrow> r' = r"
proof (induction rule: converse_rtranclp_induct)
  case base
  then show ?case
    using steps_from_Exited by blast
next
  case (step c c1)
  from step.prems show ?case
  proof (cases rule: converse_rtranclpE)
    case base
    with step.hyps(1) show ?thesis
      by (simp add: Exited_final)
  next
    case (step c2)
    with \<open>step b argc argv c c1\<close> have "c2 = c1"
      using step_deterministic by blast
    with step show ?thesis
      using \<open>(step b argc argv)\<^sup>*\<^sup>* c1 (Exited r') \<Longrightarrow> r' = r\<close> by blast
  qed
qed

text \<open>What \<open>main\<close> computes, the transition system reaches.\<close>

lemma loop_steps:
  "arg_loop argc argv i out = Some out' \<Longrightarrow>
   (step b argc argv)\<^sup>*\<^sup>* (At_test i out) (At_debug out')"
proof (induction argc argv i out rule: arg_loop.induct)
  case (1 argc argv i out)
  show ?case
  proof (cases "i <s argc")
    case False
    with "1.prems" have "out' = out"
      by (subst (asm) arg_loop.simps) simp
    with False show ?thesis
      by (auto intro: step.test_false)
  next
    case True
    with "1.prems" obtain a out1 where
      a: "argv_at argv i = Some a" and
      p: "printf (''  [%d]: %s'' @ [nl]) [Arg_int i, Arg_str a] out = Some out1" and
      r: "arg_loop argc argv (i + 1) out1 = Some out'"
      by (subst (asm) arg_loop.simps) (auto split: option.splits)
    have "(step b argc argv)\<^sup>*\<^sup>* (At_test (i + 1) out1) (At_debug out')"
      using "1.IH" [OF True a p r] .
    moreover have "step b argc argv (At_test i out) (At_body i out)"
      using True by (rule step.test_true)
    moreover have "step b argc argv (At_body i out) (At_test (i + 1) out1)"
      using a p by (rule step.body)
    ultimately show ?thesis
      by (meson converse_rtranclp_into_rtranclp)
  qed
qed

lemma main_runs:
  assumes "main b argc argv = Some r"
  shows "runs b argc argv r"
proof -
  from assms obtain o1 o2 o3 o4 o5 where
    s1: "printf (''Hello from C compiled with zmake! '' @
        [CHR 0xF0, CHR 0x9F, CHR 0x94, CHR 0xA5] @ [nl]) [] [] = Some o1" and
    s2: "printf (''Arguments: %d'' @ [nl]) [Arg_int argc] o1 = Some o2" and
    s3: "arg_loop argc argv 0 o2 = Some o3" and
    s4: "(if DEBUG b then printf (''Debug mode enabled'' @ [nl]) [] o3 else Some o3) = Some o4" and
    s5: "(if NDEBUG b then printf (''Release mode (optimized)'' @ [nl]) [] o4 else Some o4)
        = Some o5" and
    r: "r = \<lparr>stdout = o5, status = 0\<rparr>"
    unfolding main_def by (auto simp: bind_eq_Some_conv simp del: append_Cons append_Nil)
  have "step b argc argv (At_greeting []) (At_count o1)"
    using s1 by (rule step.greeting)
  moreover have "step b argc argv (At_count o1) (At_for o2)"
    using s2 by (rule step.count)
  moreover have "step b argc argv (At_for o2) (At_test 0 o2)"
    by (rule step.for_init)
  moreover have "(step b argc argv)\<^sup>*\<^sup>* (At_test 0 o2) (At_debug o3)"
    using s3 by (rule loop_steps)
  moreover have "step b argc argv (At_debug o3) (At_release o4)"
    using s4 by (auto intro: step.debug_defined step.debug_undefined split: if_splits)
  moreover have "step b argc argv (At_release o4) (At_return o5)"
    using s5 by (auto intro: step.release_defined step.release_undefined split: if_splits)
  moreover have "step b argc argv (At_return o5) (Exited r)"
    using r by (rule step.return)
  ultimately have "(step b argc argv)\<^sup>*\<^sup>* (At_greeting []) (Exited r)"
    by (meson converse_rtranclp_into_rtranclp rtranclp.rtrancl_into_rtrancl rtranclp_trans r_into_rtranclp)
  then show ?thesis
    by (simp add: runs_def)
qed

lemma runs_unique: "runs b argc argv r \<Longrightarrow> runs b argc argv r' \<Longrightarrow> r' = r"
  unfolding runs_def by (rule steps_to_Exited_unique)

section \<open>The claims\<close>

text \<open>
  C1: for every invocation the output is, in this order and with nothing else, the
  greeting line, the argument-count line, the lines of the arguments in index order,
  the debug line if \<open>DEBUG\<close> is defined, and the release line if \<open>NDEBUG\<close> is defined.
\<close>

theorem main_output_order:
  "invocation argc argv \<Longrightarrow>
   main b argc argv = Some \<lparr>stdout =
      line greeting @ line (count_text (length argv))
        @ concat (map line (arg_texts argv))
        @ (if DEBUG b then line debug_text else [])
        @ (if NDEBUG b then line release_text else []), status = 0\<rparr>"
  by (rule main_transcript)

theorem main_output_order_witness:
  "invocation 3 [''prog'', ''foo'', ''bar''] \<and>
   main \<lparr>DEBUG = True, NDEBUG = False\<rparr> 3 [''prog'', ''foo'', ''bar''] = Some \<lparr>stdout =
      line greeting @ line ''Arguments: 3''
        @ line ''  [0]: prog'' @ line ''  [1]: foo'' @ line ''  [2]: bar''
        @ line debug_text, status = 0\<rparr>"
proof -
  have h: "invocation 3 [''prog'', ''foo'', ''bar'']"
    by (rule invocation_3)
  show ?thesis
    using h main_output_order [OF h, of "\<lparr>DEBUG = True, NDEBUG = False\<rparr>"]
    by (simp add: count_text_3 arg_texts_3)
qed

text \<open>
  C2, as amended: for every invocation none of whose elements contains a line feed, the
  output has, between the argument-count line and the mode lines, exactly one line for
  each element, in index order, the line of index \<open>i\<close> being \<open>[i]:\<close> (indented by two
  spaces) followed by the text of element \<open>i\<close>. An element with a line feed in it
  takes more than one line.
\<close>

theorem argument_lines:
  "invocation argc argv \<Longrightarrow> no_line_feed argv \<Longrightarrow>
   out_lines (main b argc argv) =
     greeting # (''Arguments: '' @ dec (length argv)) #
       map (\<lambda>i. ''  ['' @ dec i @ '']: '' @ argv ! i) [0..<length argv] @ mode_texts b"
  using out_lines_main [of argc argv b]
  by (simp add: count_text_def arg_texts_def arg_text_def)

text \<open>The scenario of the specification, \<open>["prog", "foo", "bar"]\<close>.\<close>

theorem argument_lines_witness:
  "invocation 3 [''prog'', ''foo'', ''bar''] \<and> no_line_feed [''prog'', ''foo'', ''bar''] \<and>
   out_lines (main \<lparr>DEBUG = False, NDEBUG = False\<rparr> 3 [''prog'', ''foo'', ''bar'']) =
     [greeting, ''Arguments: 3'', ''  [0]: prog'', ''  [1]: foo'', ''  [2]: bar'']"
proof -
  have h: "invocation 3 [''prog'', ''foo'', ''bar'']"
    by (rule invocation_3)
  have f: "no_line_feed [''prog'', ''foo'', ''bar'']"
    by (simp add: no_line_feed_def nl_def)
  have "out_lines (main \<lparr>DEBUG = False, NDEBUG = False\<rparr> 3 [''prog'', ''foo'', ''bar'']) =
     [greeting, ''Arguments: 3'', ''  [0]: prog'', ''  [1]: foo'', ''  [2]: bar'']"
    using argument_lines [OF h f, of "\<lparr>DEBUG = False, NDEBUG = False\<rparr>"]
    by (simp add: mode_texts_def dec.simps digit_def numeral_3_eq_3)
  with h f show ?thesis by simp
qed

text \<open>
  An element with a line feed in it: \<open>./prog $'x\n  [1]: y'\<close>. Two elements give three
  lines of the argument form, two of them with index 1, and none showing the second
  element's text.
\<close>

theorem argument_lines_counterexample:
  "invocation 2 [''prog'', CHR ''x'' # nl # ''  [1]: y''] \<and>
   out_lines (main \<lparr>DEBUG = False, NDEBUG = False\<rparr> 2 [''prog'', CHR ''x'' # nl # ''  [1]: y'']) =
     [greeting, ''Arguments: 2'', ''  [0]: prog'', ''  [1]: x'', ''  [1]: y''] \<and>
   out_lines (main \<lparr>DEBUG = False, NDEBUG = False\<rparr> 2 [''prog'', CHR ''x'' # nl # ''  [1]: y'']) \<noteq>
     greeting # count_text 2 # arg_texts [''prog'', CHR ''x'' # nl # ''  [1]: y'']"
proof -
  have h: "invocation 2 [''prog'', CHR ''x'' # nl # ''  [1]: y'']"
    by (rule invocation_2)
  have "lines_of (concat (map line (arg_texts [''prog'', CHR ''x'' # nl # ''  [1]: y''])))
      = [''  [0]: prog'', ''  [1]: x'', ''  [1]: y'']"
    by (simp add: arg_texts_2 line_def lines_of_def nl_def)
  then show ?thesis
    using h by (simp add: out_lines_general [OF h] count_text_2 mode_texts_def arg_texts_2)
qed

text \<open>
  C3: for every invocation with \<open>N\<close> elements, the program's name among them, the
  argument-count line (the line after the greeting) reads \<open>Arguments:\<close> followed by the
  decimal numeral of \<open>N\<close>, and that numeral reads back as \<open>N\<close>. This needs no \<open>N \<ge> 1\<close>
  and holds whatever the elements contain.
\<close>

theorem count_line_reports_length:
  "invocation argc argv \<Longrightarrow>
   take 2 (out_lines (main b argc argv)) = [greeting, ''Arguments: '' @ dec (length argv)] \<and>
   read_dec (dec (length argv)) = length argv"
  by (simp add: out_lines_general count_text_def read_dec_dec)

theorem count_line_reports_length_witness:
  "invocation 3 [''prog'', ''foo'', ''bar''] \<and>
   take 2 (out_lines (main \<lparr>DEBUG = False, NDEBUG = True\<rparr> 3 [''prog'', ''foo'', ''bar'']))
     = [greeting, ''Arguments: 3''] \<and>
   read_dec ''3'' = 3"
proof -
  have h: "invocation 3 [''prog'', ''foo'', ''bar'']"
    by (rule invocation_3)
  have d: "dec (Suc (Suc (Suc 0))) = ''3''"
    by (simp add: dec.simps digit_def)
  show ?thesis
    using h count_line_reports_length [OF h, of "\<lparr>DEBUG = False, NDEBUG = True\<rparr>"]
    by (simp add: d)
qed

text \<open>
  C4: the extra mode lines are gated exactly by the two symbols. For every invocation
  the output begins with the argument listing, whatever the build; of the lines after
  it, the debug line is one if and only if \<open>DEBUG\<close> is defined and the release line is
  one if and only if \<open>NDEBUG\<close> is defined; with neither defined there is no line after
  the listing. An element that echoes the text of a mode line stays inside the listing,
  as in the instance that follows.
\<close>

theorem mode_lines_gated:
  "invocation argc argv \<Longrightarrow>
   map_option (\<lambda>x. take (length (listing argv)) (stdout x)) (main b argc argv)
     = Some (listing argv) \<and>
   after_listing argv (main b argc argv)
     = (if DEBUG b then [debug_text] else []) @ (if NDEBUG b then [release_text] else []) \<and>
   (debug_text \<in> set (after_listing argv (main b argc argv))) = DEBUG b \<and>
   (release_text \<in> set (after_listing argv (main b argc argv))) = NDEBUG b"
proof -
  assume h: "invocation argc argv"
  have "map_option (\<lambda>x. take (length (listing argv)) (stdout x)) (main b argc argv)
     = Some (listing argv)"
    by (simp add: main_after_listing [OF h])
  moreover have a: "after_listing argv (main b argc argv)
     = (if DEBUG b then [debug_text] else []) @ (if NDEBUG b then [release_text] else [])"
    by (simp add: after_listing_main [OF h] mode_texts_def)
  moreover have "(debug_text \<in> set (after_listing argv (main b argc argv))) = DEBUG b"
    using mode_texts_distinct by (auto simp: a)
  moreover have "(release_text \<in> set (after_listing argv (main b argc argv))) = NDEBUG b"
    using mode_texts_distinct by (auto simp: a)
  ultimately show ?thesis by blast
qed

theorem mode_lines_gated_witness:
  "invocation 2 [''prog'', nl # ''Debug mode enabled''] \<and>
   after_listing [''prog'', nl # ''Debug mode enabled'']
     (main \<lparr>DEBUG = False, NDEBUG = True\<rparr> 2 [''prog'', nl # ''Debug mode enabled''])
     = [release_text] \<and>
   debug_text \<notin> set (after_listing [''prog'', nl # ''Debug mode enabled'']
     (main \<lparr>DEBUG = False, NDEBUG = True\<rparr> 2 [''prog'', nl # ''Debug mode enabled''])) \<and>
   release_text \<in> set (after_listing [''prog'', nl # ''Debug mode enabled'']
     (main \<lparr>DEBUG = False, NDEBUG = True\<rparr> 2 [''prog'', nl # ''Debug mode enabled'']))"
proof -
  have h: "invocation 2 [''prog'', nl # ''Debug mode enabled'']"
    by (rule invocation_2)
  show ?thesis
    using h mode_lines_gated [OF h, of "\<lparr>DEBUG = False, NDEBUG = True\<rparr>", THEN conjunct2]
    by (simp add: mode_texts_distinct)
qed

text \<open>
  C5: for every invocation the program terminates and returns success. \<open>main\<close> is a
  total function (the loop's termination is proved where it is defined), its run on an
  invocation meets no undefined behaviour, and the status it returns is \<open>0\<close>, whatever
  the elements contain and whichever symbols are defined.
\<close>

theorem main_returns_success:
  "invocation argc argv \<Longrightarrow> map_option status (main b argc argv) = Some 0"
  by (simp add: main_transcript)

theorem main_returns_success_witness:
  "invocation 2 [''prog'', ''foo''] \<and>
   map_option status (main \<lparr>DEBUG = True, NDEBUG = True\<rparr> 2 [''prog'', ''foo'']) = Some 0"
proof -
  have h: "invocation 2 [''prog'', ''foo'']"
    by (rule invocation_2)
  show ?thesis
    using h main_returns_success [OF h, of "\<lparr>DEBUG = True, NDEBUG = True\<rparr>"] by simp
qed

text \<open>
  C6: on the invocation \<open>["prog"]\<close> the output is the greeting line, the line
  \<open>Arguments: 1\<close>, the line \<open>[0]: prog\<close> indented by two spaces, then the mode lines
  of the build and nothing else; as bytes and as lines.
\<close>

theorem main_prog:
  "main b 1 [''prog''] = Some \<lparr>stdout =
      line greeting @ line ''Arguments: 1'' @ line ''  [0]: prog''
        @ (if DEBUG b then line debug_text else [])
        @ (if NDEBUG b then line release_text else []), status = 0\<rparr> \<and>
   out_lines (main b 1 [''prog'']) =
     [greeting, ''Arguments: 1'', ''  [0]: prog''] @ mode_texts b"
proof -
  have h: "invocation 1 [''prog'']"
    by (rule invocation_1)
  have f: "no_line_feed [''prog'']"
    by (simp add: no_line_feed_def nl_def)
  have "main b 1 [''prog''] = Some \<lparr>stdout =
      line greeting @ line ''Arguments: 1'' @ line ''  [0]: prog''
        @ (if DEBUG b then line debug_text else [])
        @ (if NDEBUG b then line release_text else []), status = 0\<rparr>"
    by (simp add: main_transcript [OF h] count_text_1 arg_texts_1)
  moreover have "out_lines (main b 1 [''prog'']) =
     [greeting, ''Arguments: 1'', ''  [0]: prog''] @ mode_texts b"
    by (simp add: out_lines_main [OF h f] count_text_1 arg_texts_1)
  ultimately show ?thesis by (rule conjI)
qed

text \<open>
  C7: with both \<open>DEBUG\<close> and \<open>NDEBUG\<close> defined, the output of every invocation has both
  the debug line and the release line: neither excludes the other.
\<close>

theorem both_mode_lines:
  "DEBUG b \<Longrightarrow> NDEBUG b \<Longrightarrow> invocation argc argv \<Longrightarrow>
   debug_text \<in> set (out_lines (main b argc argv)) \<and>
   release_text \<in> set (out_lines (main b argc argv))"
  by (simp add: out_lines_general mode_texts_def)

theorem both_mode_lines_witness:
  "DEBUG \<lparr>DEBUG = True, NDEBUG = True\<rparr> \<and> NDEBUG \<lparr>DEBUG = True, NDEBUG = True\<rparr> \<and>
   invocation 2 [''prog'', ''foo''] \<and>
   debug_text \<in> set (out_lines (main \<lparr>DEBUG = True, NDEBUG = True\<rparr> 2 [''prog'', ''foo''])) \<and>
   release_text \<in> set (out_lines (main \<lparr>DEBUG = True, NDEBUG = True\<rparr> 2 [''prog'', ''foo'']))"
proof -
  have h: "invocation 2 [''prog'', ''foo'']"
    by (rule invocation_2)
  show ?thesis
    using h both_mode_lines [OF _ _ h, of "\<lparr>DEBUG = True, NDEBUG = True\<rparr>"] by simp
qed



text \<open>
  C9: with \<open>argc = 0\<close> the program writes the greeting line, the line \<open>Arguments: 0\<close>,
  no argument line, and the mode lines of the build, and returns success. The loop ends
  at its first test and leaves the output as it was; the result is the same for every
  \<open>argv\<close>, the empty vector included, where any read of an element would be undefined.
\<close>

theorem main_no_arguments:
  "main b 0 argv = Some \<lparr>stdout =
      line greeting @ line ''Arguments: 0''
        @ (if DEBUG b then line debug_text else [])
        @ (if NDEBUG b then line release_text else []), status = 0\<rparr> \<and>
   out_lines (main b 0 argv) = [greeting, ''Arguments: 0''] @ mode_texts b \<and>
   arg_loop 0 argv 0 out = Some out"
proof -
  have loop: "arg_loop 0 argv 0 out = Some out" for out
    by (subst arg_loop.simps) (simp add: word_sless_alt)
  have cnt: "printf (''Arguments: %d'' @ [nl]) [Arg_int 0] out = Some (out @ line ''Arguments: 0'')"
    for out
    using printf_count [of 0 out] by (simp add: count_text_0)
  have m: "main b 0 argv = Some \<lparr>stdout =
      line greeting @ line ''Arguments: 0''
        @ (if DEBUG b then line debug_text else [])
        @ (if NDEBUG b then line release_text else []), status = 0\<rparr>"
    unfolding main_def printf_greeting cnt loop printf_debug printf_release
    by simp
  have nl0: "nl \<notin> set ''Arguments: 0''"
    by (simp add: nl_def)
  have "out_lines (main b 0 argv) = [greeting, ''Arguments: 0''] @ mode_texts b"
    using lines_of_modes [of b]
    by (simp add: m out_lines_def lines_of_line nl_greeting nl0 del: set_simps)
  with m loop show ?thesis by simp
qed

text \<open>
  C10: with both \<open>DEBUG\<close> and \<open>NDEBUG\<close> defined, the output of every invocation ends
  with the debug line immediately followed by the release line; the lines after the
  argument listing are these two, in this order, so the release line does not come
  before the debug line.
\<close>

theorem debug_before_release:
  "DEBUG b \<Longrightarrow> NDEBUG b \<Longrightarrow> invocation argc argv \<Longrightarrow>
   map_option stdout (main b argc argv) =
     Some (line greeting @ line (count_text (length argv)) @ concat (map line (arg_texts argv))
       @ line debug_text @ line release_text) \<and>
   after_listing argv (main b argc argv) = [debug_text, release_text]"
proof -
  assume b: "DEBUG b" "NDEBUG b" and h: "invocation argc argv"
  have "map_option stdout (main b argc argv) =
     Some (line greeting @ line (count_text (length argv)) @ concat (map line (arg_texts argv))
       @ line debug_text @ line release_text)"
    using b by (simp add: main_transcript [OF h])
  moreover have "after_listing argv (main b argc argv) = [debug_text, release_text]"
    using b by (simp add: after_listing_main [OF h] mode_texts_def)
  ultimately show ?thesis by (rule conjI)
qed

theorem debug_before_release_witness:
  "DEBUG \<lparr>DEBUG = True, NDEBUG = True\<rparr> \<and> NDEBUG \<lparr>DEBUG = True, NDEBUG = True\<rparr> \<and>
   invocation 2 [''prog'', nl # ''Release mode (optimized)''] \<and>
   after_listing [''prog'', nl # ''Release mode (optimized)'']
     (main \<lparr>DEBUG = True, NDEBUG = True\<rparr> 2 [''prog'', nl # ''Release mode (optimized)''])
     = [debug_text, release_text]"
proof -
  have h: "invocation 2 [''prog'', nl # ''Release mode (optimized)'']"
    by (rule invocation_2)
  show ?thesis
    using h debug_before_release [OF _ _ h, of "\<lparr>DEBUG = True, NDEBUG = True\<rparr>", THEN conjunct2]
    by simp
qed

end
